theory Spec2Isabelle
  imports Complex_Main
begin

section \<open>Data model of app.py (class FootballIntelligence)\<close>

text \<open>
  The odds API delivers JSON that Python reads into nested dicts and lists. Every field
  that the code reads through \<^verbatim>\<open>dict.get\<close> is an option here: \<open>None\<close> is the absent
  key, and \<open>dict_get\<close> supplies the default that the call site gives.

  Numbers are the exact values of Python's ints and floats, as reals. Comparison and
  \<^verbatim>\<open>max\<close> are exact on floats; the one rounding operation of the code, the subtraction
  \<^verbatim>\<open>x['odds'] - target_odds\<close>, is modelled as the exact difference. A decimal literal of
  the source (\<^verbatim>\<open>1.80\<close>, \<^verbatim>\<open>2.05\<close>, \<^verbatim>\<open>2.20\<close>) stands for the decimal fraction it writes.
\<close>

datatype pyval = Num real | Str string | PyNone

datatype error = TypeError

record outcome =
  name :: "string option"
  price :: "pyval option"

record market =
  key :: "string option"
  outcomes :: "outcome list option"

record bookmaker =
  markets :: "market list option"

record fixture =
  home_team :: "string option"
  away_team :: "string option"
  commence_time :: "string option"
  bookmakers :: "bookmaker list option"

text \<open>The dict \<^verbatim>\<open>best_odds\<close>, with its three keys in insertion order.\<close>

record best_odds =
  home :: real
  draw :: real
  away :: real

text \<open>An element of \<^verbatim>\<open>picks\<close>, and the dict that \<^verbatim>\<open>analyze_match\<close> returns.\<close>

record pick_rec =
  pick :: string
  odds :: real
  confidence :: int

record analysis =
  a_match :: string
  a_commence_time :: string
  a_odds :: best_odds
  recommendation :: pick_rec

section \<open>Python primitives\<close>

definition dict_get :: "'a \<Rightarrow> 'a option \<Rightarrow> 'a" where
  "dict_get d v = (case v of None \<Rightarrow> d | Some x \<Rightarrow> x)"

text \<open>
  \<^verbatim>\<open>max(cur, p)\<close> where \<open>cur\<close> is a number: it evaluates \<^verbatim>\<open>p > cur\<close>, which raises
  TypeError when \<open>p\<close> is a string or None, and returns \<open>p\<close> only when it is greater.
\<close>

definition py_max :: "real \<Rightarrow> pyval \<Rightarrow> error + real" where
  "py_max cur p = (case p of
      Num x \<Rightarrow> Inr (if cur < x then x else cur)
    | Str s \<Rightarrow> Inl TypeError
    | PyNone \<Rightarrow> Inl TypeError)"

text \<open>\<^verbatim>\<open>str.upper\<close> on ASCII text.\<close>

definition upper_char :: "char \<Rightarrow> char" where
  "upper_char c = (let n = (of_char c :: nat) in
     if 97 \<le> n \<and> n \<le> 122 then char_of (n - 32) else c)"

definition upper :: "string \<Rightarrow> string" where
  "upper s = map upper_char s"

text \<open>A \<^verbatim>\<open>for\<close> loop that updates a state and stops at the first exception.\<close>

fun for_each :: "('s \<Rightarrow> 'a \<Rightarrow> error + 's) \<Rightarrow> 's \<Rightarrow> 'a list \<Rightarrow> error + 's" where
  "for_each f s [] = Inr s"
| "for_each f s (x # xs) = (case f s x of Inl e \<Rightarrow> Inl e | Inr s' \<Rightarrow> for_each f s' xs)"

text \<open>
  \<^verbatim>\<open>list.sort(key=f)\<close> is a stable ascending sort, as \<open>sort_key\<close> is. With
  \<^verbatim>\<open>reverse=True\<close> the list is reversed, sorted and reversed again.
\<close>

definition py_sort :: "('a \<Rightarrow> 'k::linorder) \<Rightarrow> 'a list \<Rightarrow> 'a list" where
  "py_sort f xs = sort_key f xs"

definition py_sort_reverse :: "('a \<Rightarrow> 'k::linorder) \<Rightarrow> 'a list \<Rightarrow> 'a list" where
  "py_sort_reverse f xs = rev (sort_key f (rev xs))"

section \<open>analyze_match\<close>

subsection \<open>Lines 68-83: the best price of each outcome\<close>

definition update_best :: "string \<Rightarrow> string \<Rightarrow> best_odds \<Rightarrow> outcome \<Rightarrow> error + best_odds" where
  "update_best h a b oc =
     (let p = dict_get (Num 0) (price oc) in
      if name oc = Some h then
        (case py_max (home b) p of Inl e \<Rightarrow> Inl e | Inr v \<Rightarrow> Inr (b\<lparr>home := v\<rparr>))
      else if name oc = Some a then
        (case py_max (away b) p of Inl e \<Rightarrow> Inl e | Inr v \<Rightarrow> Inr (b\<lparr>away := v\<rparr>))
      else
        (case py_max (draw b) p of Inl e \<Rightarrow> Inl e | Inr v \<Rightarrow> Inr (b\<lparr>draw := v\<rparr>)))"

definition scan_market :: "string \<Rightarrow> string \<Rightarrow> best_odds \<Rightarrow> market \<Rightarrow> error + best_odds" where
  "scan_market h a b m =
     (if key m = Some ''h2h'' then for_each (update_best h a) b (dict_get [] (outcomes m))
      else Inr b)"

definition scan_bookmaker :: "string \<Rightarrow> string \<Rightarrow> best_odds \<Rightarrow> bookmaker \<Rightarrow> error + best_odds" where
  "scan_bookmaker h a b bk = for_each (scan_market h a) b (dict_get [] (markets bk))"

definition no_odds :: best_odds where
  "no_odds = \<lparr>home = 0, draw = 0, away = 0\<rparr>"

definition best_odds_of :: "string \<Rightarrow> string \<Rightarrow> bookmaker list \<Rightarrow> error + best_odds" where
  "best_odds_of h a bks = for_each (scan_bookmaker h a) no_odds bks"

subsection \<open>Lines 86-100: the candidate picks\<close>

definition items :: "best_odds \<Rightarrow> (string \<times> real) list" where
  "items b = [(''home'', home b), (''draw'', draw b), (''away'', away b)]"

definition in_band :: "real \<Rightarrow> bool" where
  "in_band oddv \<longleftrightarrow> 1.80 \<le> oddv \<and> oddv \<le> 2.20"

text \<open>The value of \<^verbatim>\<open>confidence\<close> before the clamp of line 99.\<close>

definition raw_confidence :: "string \<Rightarrow> real \<Rightarrow> int" where
  "raw_confidence outc oddv =
     50 + (if oddv < 2.05 then 10 else 0) + (if outc = ''home'' then 5 else 0)"

definition make_pick :: "string \<Rightarrow> real \<Rightarrow> pick_rec" where
  "make_pick outc oddv =
     \<lparr>pick = upper outc, odds = oddv, confidence = min (raw_confidence outc oddv) 85\<rparr>"

fun collect_picks :: "(string \<times> real) list \<Rightarrow> pick_rec list" where
  "collect_picks [] = []"
| "collect_picks ((outc, oddv) # rest) =
     (if in_band oddv then make_pick outc oddv # collect_picks rest else collect_picks rest)"

subsection \<open>The whole function\<close>

definition analyze_match :: "fixture \<Rightarrow> real \<Rightarrow> error + analysis option" where
  "analyze_match m target_odds =
     (let h = dict_get ''Unknown'' (home_team m);
          a = dict_get ''Unknown'' (away_team m);
          bks = dict_get [] (bookmakers m)
      in if bks = [] then Inr None
         else case best_odds_of h a bks of
           Inl e \<Rightarrow> Inl e
         | Inr best \<Rightarrow>
             (let picks = collect_picks (items best) in
              if picks = [] then Inr None
              else Inr (Some
                \<lparr>a_match = h @ '' vs '' @ a,
                 a_commence_time = dict_get ''Unknown'' (commence_time m),
                 a_odds = best,
                 recommendation = hd (py_sort (\<lambda>x. \<bar>odds x - target_odds\<bar>) picks)\<rparr>)))"

section \<open>find_best_bets\<close>

text \<open>
  \<^verbatim>\<open>get_matches_with_odds\<close> asks the network, so it is a parameter: from the state of
  the world and a league it gives the fixtures and the next state of the world. It
  catches every exception itself and then returns the empty list.
\<close>

type_synonym 'w source = "'w \<Rightarrow> string \<Rightarrow> fixture list \<times> 'w"

text \<open>Lines 121-124: the inner loop, appending to \<^verbatim>\<open>all_picks\<close>.\<close>

definition analyze_into :: "real \<Rightarrow> analysis list \<Rightarrow> fixture \<Rightarrow> error + analysis list" where
  "analyze_into target_odds all_picks m =
     (case analyze_match m target_odds of
        Inl e \<Rightarrow> Inl e
      | Inr None \<Rightarrow> Inr all_picks
      | Inr (Some an) \<Rightarrow> Inr (all_picks @ [an]))"

text \<open>Lines 118-124: the outer loop.\<close>

fun collect :: "'w source \<Rightarrow> real \<Rightarrow> 'w \<Rightarrow> analysis list \<Rightarrow> string list \<Rightarrow> error + analysis list" where
  "collect fetch target_odds w all_picks [] = Inr all_picks"
| "collect fetch target_odds w all_picks (league # rest) =
     (let (matches, w') = fetch w league in
      case for_each (analyze_into target_odds) all_picks (take 5 matches) of
        Inl e \<Rightarrow> Inl e
      | Inr all_picks' \<Rightarrow> collect fetch target_odds w' all_picks' rest)"

definition find_best_bets :: "'w source \<Rightarrow> 'w \<Rightarrow> string list \<Rightarrow> real \<Rightarrow> error + analysis list" where
  "find_best_bets fetch w leagues target_odds =
     (case collect fetch target_odds w [] leagues of
        Inl e \<Rightarrow> Inl e
      | Inr all_picks \<Rightarrow> Inr (py_sort_reverse (\<lambda>x. confidence (recommendation x)) all_picks))"

section \<open>Notions used in the statements\<close>

text \<open>
  The best-price record that \<^verbatim>\<open>analyze_match\<close> computes for a fixture (lines 61-83).
\<close>

definition fixture_best_odds :: "fixture \<Rightarrow> error + best_odds" where
  "fixture_best_odds m =
     best_odds_of (dict_get ''Unknown'' (home_team m)) (dict_get ''Unknown'' (away_team m))
       (dict_get [] (bookmakers m))"

text \<open>
  One record is below another when each of its three prices is.
\<close>

definition le_odds :: "best_odds \<Rightarrow> best_odds \<Rightarrow> bool" where
  "le_odds b b' \<longleftrightarrow> home b \<le> home b' \<and> draw b \<le> draw b' \<and> away b \<le> away b'"

text \<open>
  The order of collection in \<^verbatim>\<open>find_best_bets\<close>: the fixture lists that the successive
  calls of the source return, league after league; the analyses that a list of fixtures
  yields, fixture after fixture; and the analyses of the first five fixtures of every
  league, in that order.
\<close>

fun fetch_all :: "'w source \<Rightarrow> 'w \<Rightarrow> string list \<Rightarrow> fixture list list" where
  "fetch_all fetch w [] = []"
| "fetch_all fetch w (league # rest) =
     (let (matches, w') = fetch w league in matches # fetch_all fetch w' rest)"

definition analyses_of :: "real \<Rightarrow> fixture list \<Rightarrow> analysis list" where
  "analyses_of target_odds ms =
     List.map_filter (\<lambda>m. case analyze_match m target_odds of
                             Inr (Some an) \<Rightarrow> Some an | _ \<Rightarrow> None) ms"

definition fan_out :: "'w source \<Rightarrow> 'w \<Rightarrow> string list \<Rightarrow> real \<Rightarrow> analysis list" where
  "fan_out fetch w leagues target_odds =
     concat (map (\<lambda>ms. analyses_of target_odds (take 5 ms)) (fetch_all fetch w leagues))"

text \<open>
  The source that hands over no more than the first five fixtures of each answer.
\<close>

definition first_five :: "'w source \<Rightarrow> 'w source" where
  "first_five fetch = (\<lambda>w league. let (matches, w') = fetch w league in (take 5 matches, w'))"







subsection \<open>Example data\<close>

text \<open>
  A bookmaker with one head-to-head market quoting the three outcomes of Arsenal against
  Chelsea, the fixture with a given list of bookmakers, and the fixture with one
  bookmaker quoting three numbers.
\<close>

definition quote :: "pyval option \<Rightarrow> pyval option \<Rightarrow> pyval option \<Rightarrow> bookmaker" where
  "quote ph pd pa = \<lparr>markets = Some [\<lparr>key = Some ''h2h'', outcomes = Some
     [\<lparr>name = Some ''Arsenal'', price = ph\<rparr>,
      \<lparr>name = Some ''Draw'', price = pd\<rparr>,
      \<lparr>name = Some ''Chelsea'', price = pa\<rparr>]\<rparr>]\<rparr>"

definition arsenal_chelsea :: "bookmaker list \<Rightarrow> fixture" where
  "arsenal_chelsea bks = \<lparr>home_team = Some ''Arsenal'', away_team = Some ''Chelsea'',
     commence_time = None, bookmakers = Some bks\<rparr>"

definition priced_at :: "real \<Rightarrow> real \<Rightarrow> real \<Rightarrow> fixture" where
  "priced_at x y z = arsenal_chelsea [quote (Some (Num x)) (Some (Num y)) (Some (Num z))]"


text \<open>
  The analysis that recommends the home outcome at price \<open>x\<close>.
\<close>

definition home_pick :: "real \<Rightarrow> real \<Rightarrow> real \<Rightarrow> analysis" where
  "home_pick x y z = \<lparr>a_match = ''Arsenal vs Chelsea'', a_commence_time = ''Unknown'',
     a_odds = \<lparr>home = x, draw = y, away = z\<rparr>, recommendation = make_pick ''home'' x\<rparr>"

text \<open>
  Two sources that ignore the state of the world: one serves two leagues, the other
  answers every league with eight fixtures, the sixth of which has a text for a price.
\<close>

definition two_leagues :: "unit source" where
  "two_leagues = (\<lambda>w league.
     (if league = ''A'' then [priced_at 2.10 3.00 5.00, priced_at 1.90 3.00 5.00]
      else if league = ''B'' then [priced_at 1.95 3.00 5.00]
      else [], w))"

definition eight_fixtures :: "unit source" where
  "eight_fixtures = (\<lambda>w league.
     ([priced_at 1.90 3.00 5.00, priced_at 1.91 3.00 5.00, priced_at 1.92 3.00 5.00,
       priced_at 1.93 3.00 5.00, priced_at 1.94 3.00 5.00,
       arsenal_chelsea [quote (Some (Str ''1.95'')) None None],
       priced_at 1.96 3.00 5.00, priced_at 1.97 3.00 5.00], w))"

section \<open>Auxiliary lemmas\<close>

subsection \<open>Primitives and loops\<close>

lemma upper_keys:
  "upper ''home'' = ''HOME''" "upper ''draw'' = ''DRAW''" "upper ''away'' = ''AWAY''"
  by code_simp+

lemma for_each_append:
  "for_each f s (xs @ ys) = (case for_each f s xs of Inl e \<Rightarrow> Inl e | Inr s' \<Rightarrow> for_each f s' ys)"
  by (induction xs arbitrary: s) (auto split: sum.splits)

lemma for_each_rel:
  assumes step: "\<And>s x s'. f s x = Inr s' \<Longrightarrow> R s s'"
    and refl: "\<And>s. R s s"
    and trans: "\<And>s1 s2 s3. R s1 s2 \<Longrightarrow> R s2 s3 \<Longrightarrow> R s1 s3"
  shows "for_each f s xs = Inr s' \<Longrightarrow> R s s'"
proof (induction xs arbitrary: s)
  case Nil
  then show ?case by (simp add: refl)
next
  case (Cons x xs)
  from Cons.prems obtain s1 where s1: "f s x = Inr s1" and rest: "for_each f s1 xs = Inr s'"
    by (auto split: sum.splits)
  from step [OF s1] Cons.IH [OF rest] show ?case by (rule trans)
qed

subsection \<open>The best prices only grow\<close>

lemma le_odds_refl: "le_odds b b"
  by (simp add: le_odds_def)

lemma le_odds_trans: "le_odds b1 b2 \<Longrightarrow> le_odds b2 b3 \<Longrightarrow> le_odds b1 b3"
  by (auto simp: le_odds_def)

lemma for_each_le_odds:
  assumes "\<And>s x s'. f s x = Inr s' \<Longrightarrow> le_odds s s'"
  shows "for_each f b xs = Inr b' \<Longrightarrow> le_odds b b'"
  using assms le_odds_refl le_odds_trans by (rule for_each_rel)

lemma py_max_ge: "py_max cur p = Inr v \<Longrightarrow> cur \<le> v"
  by (auto simp: py_max_def split: pyval.splits if_splits)

lemma update_best_mono: "update_best h a b oc = Inr b' \<Longrightarrow> le_odds b b'"
  by (auto simp: update_best_def le_odds_def Let_def split: if_splits sum.splits dest: py_max_ge)

lemma scan_market_mono: "scan_market h a b m = Inr b' \<Longrightarrow> le_odds b b'"
proof (cases "key m = Some ''h2h''")
  case True
  assume "scan_market h a b m = Inr b'"
  with True have "for_each (update_best h a) b (dict_get [] (outcomes m)) = Inr b'"
    by (simp add: scan_market_def)
  then show ?thesis
    using for_each_le_odds [of "update_best h a"] update_best_mono by blast
next
  case False
  assume "scan_market h a b m = Inr b'"
  with False show ?thesis by (simp add: scan_market_def le_odds_refl)
qed

lemma scan_bookmaker_mono: "scan_bookmaker h a b bk = Inr b' \<Longrightarrow> le_odds b b'"
  unfolding scan_bookmaker_def
  using for_each_le_odds [of "scan_market h a"] scan_market_mono by blast

subsection \<open>Candidates and the recommended pick\<close>

lemma hd_sort_key_min:
  assumes "xs \<noteq> []"
  shows "hd (sort_key f xs) \<in> set xs \<and> (\<forall>y\<in>set xs. f (hd (sort_key f xs)) \<le> f y)"
proof -
  from assms have "sort_key f xs \<noteq> []"
    by (metis length_sort length_0_conv)
  then obtain z zs where zs: "sort_key f xs = z # zs"
    by (cases "sort_key f xs") auto
  have "sorted (map f (sort_key f xs))" by (rule sorted_sort_key)
  with zs have le: "\<forall>y\<in>set zs. f z \<le> f y" by simp
  have "set (z # zs) = set xs" using zs set_sort [of f xs] by simp
  with le zs show ?thesis by auto
qed

lemma set_collect_picks:
  "set (collect_picks kvs) = {make_pick k v | k v. (k, v) \<in> set kvs \<and> in_band v}"
  by (induction kvs rule: collect_picks.induct) auto

lemma analyze_match_Some:
  assumes "analyze_match m t = Inr (Some an)"
  obtains best where
    "dict_get [] (bookmakers m) \<noteq> []"
    "best_odds_of (dict_get ''Unknown'' (home_team m)) (dict_get ''Unknown'' (away_team m))
       (dict_get [] (bookmakers m)) = Inr best"
    "collect_picks (items best) \<noteq> []"
    "a_odds an = best"
    "recommendation an = hd (sort_key (\<lambda>x. \<bar>odds x - t\<bar>) (collect_picks (items best)))"
  using assms
  by (auto simp: analyze_match_def Let_def py_sort_def split: if_splits sum.splits)

lemma recommendation_candidate:
  assumes "analyze_match m t = Inr (Some an)"
  shows "recommendation an \<in> set (collect_picks (items (a_odds an)))
    \<and> (\<forall>q\<in>set (collect_picks (items (a_odds an))).
          \<bar>odds (recommendation an) - t\<bar> \<le> \<bar>odds q - t\<bar>)"
proof -
  from assms obtain best where ne: "collect_picks (items best) \<noteq> []"
    and best: "a_odds an = best"
    and r: "recommendation an = hd (sort_key (\<lambda>x. \<bar>odds x - t\<bar>) (collect_picks (items best)))"
    by (rule analyze_match_Some)
  from hd_sort_key_min [OF ne, of "\<lambda>x. \<bar>odds x - t\<bar>"] best r show ?thesis by simp
qed

lemma items_set: "set (items b) = {(''home'', home b), (''draw'', draw b), (''away'', away b)}"
  by (simp add: items_def)

lemma picks_empty_iff:
  "collect_picks (items b) = [] \<longleftrightarrow> \<not> in_band (home b) \<and> \<not> in_band (draw b) \<and> \<not> in_band (away b)"
  by (simp add: items_def)

lemma not_in_band_0: "\<not> in_band 0"
  by (simp add: in_band_def)

lemma analyze_match_cases:
  assumes "fixture_best_odds m = Inr b"
  shows "analyze_match m t =
     (if collect_picks (items b) = [] then Inr None
      else Inr (Some \<lparr>a_match = dict_get ''Unknown'' (home_team m) @ '' vs ''
                          @ dict_get ''Unknown'' (away_team m),
                       a_commence_time = dict_get ''Unknown'' (commence_time m),
                       a_odds = b,
                       recommendation = hd (sort_key (\<lambda>x. \<bar>odds x - t\<bar>) (collect_picks (items b)))\<rparr>))"
proof (cases "dict_get [] (bookmakers m) = []")
  case True
  with assms have "b = no_odds"
    by (simp add: fixture_best_odds_def best_odds_of_def)
  then have "collect_picks (items b) = []"
    by (simp add: picks_empty_iff no_odds_def not_in_band_0)
  with True show ?thesis by (simp add: analyze_match_def)
next
  case False
  with assms show ?thesis
    by (simp add: analyze_match_def fixture_best_odds_def Let_def py_sort_def)
qed

lemma analyze_match_best:
  assumes "analyze_match m t = Inr (Some an)"
  shows "fixture_best_odds m = Inr (a_odds an)"
  using assms by (rule analyze_match_Some) (simp add: fixture_best_odds_def)

lemma best_odds_priced_at:
  "fixture_best_odds (priced_at x y z) = Inr \<lparr>home = max 0 x, draw = max 0 y, away = max 0 z\<rparr>"
  by (simp add: fixture_best_odds_def priced_at_def arsenal_chelsea_def quote_def dict_get_def
      best_odds_of_def scan_bookmaker_def scan_market_def update_best_def py_max_def no_odds_def max_def)

lemma pick_in_band:
  "p \<in> set (collect_picks kvs) \<Longrightarrow> in_band (odds p)"
  by (auto simp: set_collect_picks make_pick_def)

lemma analyze_priced_at:
  "analyze_match (priced_at x y z) t =
     (if collect_picks (items \<lparr>home = max 0 x, draw = max 0 y, away = max 0 z\<rparr>) = [] then Inr None
      else Inr (Some \<lparr>a_match = ''Arsenal vs Chelsea'', a_commence_time = ''Unknown'',
             a_odds = \<lparr>home = max 0 x, draw = max 0 y, away = max 0 z\<rparr>,
             recommendation = hd (sort_key (\<lambda>p. \<bar>odds p - t\<bar>)
               (collect_picks (items \<lparr>home = max 0 x, draw = max 0 y, away = max 0 z\<rparr>)))\<rparr>))"
  by (simp add: analyze_match_cases [OF best_odds_priced_at])
     (simp add: priced_at_def arsenal_chelsea_def dict_get_def)

lemma pick_confidence:
  assumes "p \<in> set (collect_picks (items b))"
  shows "confidence p = min (50 + (if odds p < 2.05 then 10 else 0)
                                + (if pick p = ''HOME'' then 5 else 0)) 85"
  using assms
  by (auto simp: set_collect_picks items_set make_pick_def raw_confidence_def upper_keys)

lemma raw_confidence_values:
  "raw_confidence k v = 50 \<or> raw_confidence k v = 55
   \<or> raw_confidence k v = 60 \<or> raw_confidence k v = 65"
  by (simp add: raw_confidence_def)

lemma pick_confidence_values:
  assumes "p \<in> set (collect_picks kvs)"
  shows "confidence p \<in> {50, 55, 60, 65}"
proof -
  from assms obtain k v where "p = make_pick k v"
    by (auto simp: set_collect_picks)
  then have "confidence p = min (raw_confidence k v) 85"
    by (simp add: make_pick_def)
  with raw_confidence_values [of k v] show ?thesis by auto
qed

subsection \<open>The target price\<close>

lemma analyze_match_target:
  "analyze_match m t =
     (case analyze_match m t' of
        Inr (Some an) \<Rightarrow> Inr (Some (an\<lparr>recommendation :=
            hd (py_sort (\<lambda>x. \<bar>odds x - t\<bar>) (collect_picks (items (a_odds an))))\<rparr>))
      | r \<Rightarrow> r)"
  by (simp add: analyze_match_def Let_def split: sum.splits)

lemma target_Some:
  "analyze_match m t = Inr (Some an) \<Longrightarrow> \<exists>an'. analyze_match m t' = Inr (Some an')"
  using analyze_match_target [of m t' t] by simp

lemma target_None: "analyze_match m t = Inr None \<Longrightarrow> analyze_match m t' = Inr None"
  using analyze_match_target [of m t' t] by simp

lemma target_Inl: "analyze_match m t = Inl e \<Longrightarrow> analyze_match m t' = Inl e"
  using analyze_match_target [of m t' t] by simp

subsection \<open>Evaluated examples\<close>

lemma analyze_home_low:
  "analyze_match (priced_at 1.90 3.00 5.00) 2 = Inr (Some
      \<lparr>a_match = ''Arsenal vs Chelsea'', a_commence_time = ''Unknown'',
       a_odds = \<lparr>home = 1.90, draw = 3.00, away = 5.00\<rparr>,
       recommendation = \<lparr>pick = ''HOME'', odds = 1.90, confidence = 65\<rparr>\<rparr>)"
  by (simp add: analyze_priced_at items_def in_band_def make_pick_def raw_confidence_def upper_keys)

lemma analyze_home_high:
  "analyze_match (priced_at 2.10 3.00 5.00) 2 = Inr (Some
      \<lparr>a_match = ''Arsenal vs Chelsea'', a_commence_time = ''Unknown'',
       a_odds = \<lparr>home = 2.10, draw = 3.00, away = 5.00\<rparr>,
       recommendation = \<lparr>pick = ''HOME'', odds = 2.10, confidence = 55\<rparr>\<rparr>)"
  by (simp add: analyze_priced_at items_def in_band_def make_pick_def raw_confidence_def upper_keys)

lemma analyze_draw_low:
  "analyze_match (priced_at 1.50 1.90 5.00) 2 = Inr (Some
      \<lparr>a_match = ''Arsenal vs Chelsea'', a_commence_time = ''Unknown'',
       a_odds = \<lparr>home = 1.50, draw = 1.90, away = 5.00\<rparr>,
       recommendation = \<lparr>pick = ''DRAW'', odds = 1.90, confidence = 60\<rparr>\<rparr>)"
  by (simp add: analyze_priced_at items_def in_band_def make_pick_def raw_confidence_def upper_keys)

lemma analyze_away_high:
  "analyze_match (priced_at 1.50 3.00 2.10) 2 = Inr (Some
      \<lparr>a_match = ''Arsenal vs Chelsea'', a_commence_time = ''Unknown'',
       a_odds = \<lparr>home = 1.50, draw = 3.00, away = 2.10\<rparr>,
       recommendation = \<lparr>pick = ''AWAY'', odds = 2.10, confidence = 50\<rparr>\<rparr>)"
  by (simp add: analyze_priced_at items_def in_band_def make_pick_def raw_confidence_def upper_keys)

lemma confidence_reached:
  assumes "analyze_match m t = Inr (Some an)" and "confidence (recommendation an) = c"
  shows "\<exists>m' t' an'. analyze_match m' t' = Inr (Some an') \<and> confidence (recommendation an') = c"
  using assms by blast

subsection \<open>Collection and ranking\<close>

lemma analyses_of_Cons:
  "analyses_of t (m # ms) =
     (case analyze_match m t of Inr (Some an) \<Rightarrow> an # analyses_of t ms | _ \<Rightarrow> analyses_of t ms)"
  by (simp add: analyses_of_def map_filter_simps split: sum.splits option.splits)

lemma analyses_of_Nil: "analyses_of t [] = []"
  by (simp add: analyses_of_def map_filter_simps)

lemma for_each_analyze_into:
  "for_each (analyze_into t) acc ms = Inr acc' \<Longrightarrow> acc' = acc @ analyses_of t ms"
proof (induction ms arbitrary: acc)
  case Nil
  then show ?case by (simp add: analyses_of_Nil)
next
  case (Cons m ms)
  from Cons.prems obtain acc1 where step: "analyze_into t acc m = Inr acc1"
    and rest: "for_each (analyze_into t) acc1 ms = Inr acc'"
    by (auto split: sum.splits)
  from step have "acc1 @ analyses_of t ms = acc @ analyses_of t (m # ms)"
    by (auto simp: analyze_into_def analyses_of_Cons split: sum.splits option.splits)
  with Cons.IH [OF rest] show ?case by simp
qed

lemma collect_fan_out:
  "collect fetch t w acc leagues = Inr all \<Longrightarrow> all = acc @ fan_out fetch w leagues t"
proof (induction leagues arbitrary: w acc)
  case Nil
  then show ?case by (simp add: fan_out_def)
next
  case (Cons league rest)
  obtain ms w' where f: "fetch w league = (ms, w')" by (cases "fetch w league")
  from Cons.prems f obtain acc' where
    inner: "for_each (analyze_into t) acc (take 5 ms) = Inr acc'"
    and outer: "collect fetch t w' acc' rest = Inr all"
    by (auto split: sum.splits)
  from for_each_analyze_into [OF inner] Cons.IH [OF outer] f
  show ?case by (simp add: fan_out_def)
qed

lemma length_analyses_of: "length (analyses_of t ms) \<le> length ms"
  by (induction ms) (auto simp: analyses_of_Nil analyses_of_Cons split: sum.splits option.splits)

lemma length_fetch_all: "length (fetch_all fetch w leagues) = length leagues"
  by (induction leagues arbitrary: w) (auto split: prod.splits)

lemma length_concat_bound:
  "(\<And>xs. xs \<in> set xss \<Longrightarrow> length xs \<le> n) \<Longrightarrow> length (concat xss) \<le> n * length xss"
  by (induction xss) (auto simp: add_le_mono)

lemma length_fan_out: "length (fan_out fetch w leagues t) \<le> 5 * length leagues"
proof -
  have "length (fan_out fetch w leagues t)
      \<le> 5 * length (map (\<lambda>ms. analyses_of t (take 5 ms)) (fetch_all fetch w leagues))"
    unfolding fan_out_def
  proof (rule length_concat_bound)
    fix xs assume "xs \<in> set (map (\<lambda>ms. analyses_of t (take 5 ms)) (fetch_all fetch w leagues))"
    then obtain ms where "xs = analyses_of t (take 5 ms)" by auto
    with length_analyses_of [of t "take 5 ms"] show "length xs \<le> 5" by simp
  qed
  then show ?thesis by (simp add: length_fetch_all)
qed

lemma collect_first_five:
  "collect (first_five fetch) t w acc leagues = collect fetch t w acc leagues"
  by (induction leagues arbitrary: w acc) (auto simp: first_five_def split: prod.splits sum.splits)

lemma sorted_py_sort_reverse:
  "sorted_wrt (\<lambda>x y. f y \<le> f x) (py_sort_reverse f xs)"
proof -
  have "sorted (map f (sort_key f (rev xs)))" by (rule sorted_sort_key)
  then have "sorted_wrt (\<lambda>x y. f x \<le> f y) (sort_key f (rev xs))"
    by (simp add: sorted_map)
  then show ?thesis by (simp add: py_sort_reverse_def sorted_wrt_rev)
qed

lemma stable_py_sort_reverse:
  "filter (\<lambda>x. f x = k) (py_sort_reverse f xs) = filter (\<lambda>x. f x = k) xs"
proof -
  have "filter (\<lambda>x. f x = k) (py_sort_reverse f xs)
      = rev (filter (\<lambda>x. f x = k) (sort_key f (rev xs)))"
    by (simp add: py_sort_reverse_def rev_filter)
  also have "\<dots> = rev (filter (\<lambda>x. f x = k) (rev xs))"
    by (simp only: sort_key_stable)
  also have "\<dots> = filter (\<lambda>x. f x = k) xs"
    by (simp add: rev_filter)
  finally show ?thesis .
qed

lemma length_py_sort_reverse: "length (py_sort_reverse f xs) = length xs"
  by (simp add: py_sort_reverse_def)

lemma set_py_sort_reverse: "set (py_sort_reverse f xs) = set xs"
  by (simp add: py_sort_reverse_def)

lemma analyze_home_pick:
  assumes "in_band x" and "\<not> in_band y" and "\<not> in_band z" and "0 \<le> y" and "0 \<le> z"
  shows "analyze_match (priced_at x y z) t = Inr (Some (home_pick x y z))"
proof -
  from assms(1) have "0 \<le> x" by (simp add: in_band_def)
  with assms show ?thesis
    by (simp add: analyze_priced_at items_def home_pick_def max_def)
qed

lemma confidence_home_pick:
  "confidence (recommendation (home_pick x y z)) = (if x < 2.05 then 65 else 55)"
  by (simp add: home_pick_def make_pick_def raw_confidence_def)

lemma analyze_text_price:
  "analyze_match (arsenal_chelsea [quote (Some (Str s)) pd pa]) t = Inl TypeError"
  by (simp add: analyze_match_def arsenal_chelsea_def quote_def dict_get_def best_odds_of_def
      scan_bookmaker_def scan_market_def update_best_def py_max_def)

subsection \<open>Prices that are absent or numeric\<close>









lemma dict_get_map_option: "dict_get [] (map_option f v) = (case v of None \<Rightarrow> [] | Some xs \<Rightarrow> f xs)"
  by (simp add: dict_get_def split: option.splits)






section \<open>Properties\<close>

text \<open>
  C1. Whenever \<^verbatim>\<open>analyze_match\<close> returns an analysis, the price of its recommended pick
  lies in the closed interval from 1.80 to 2.20; when none of the three best prices lies
  in that interval it returns None. The price 2.20 is in the band and 2.21 is not.
\<close>

theorem band_invariant:
  "(analyze_match m t = Inr (Some an) \<longrightarrow>
      1.80 \<le> odds (recommendation an) \<and> odds (recommendation an) \<le> 2.20)
   \<and> (fixture_best_odds m = Inr b
        \<and> \<not> (1.80 \<le> home b \<and> home b \<le> 2.20)
        \<and> \<not> (1.80 \<le> draw b \<and> draw b \<le> 2.20)
        \<and> \<not> (1.80 \<le> away b \<and> away b \<le> 2.20) \<longrightarrow> analyze_match m t = Inr None)
   \<and> in_band 2.20 \<and> \<not> in_band 2.21"
proof (intro conjI impI)
  assume a: "analyze_match m t = Inr (Some an)"
  from recommendation_candidate [OF a] have "in_band (odds (recommendation an))"
    using pick_in_band by blast
  then show "1.80 \<le> odds (recommendation an)" and "odds (recommendation an) \<le> 2.20"
    by (simp_all add: in_band_def)
next
  assume h: "fixture_best_odds m = Inr b
        \<and> \<not> (1.80 \<le> home b \<and> home b \<le> 2.20)
        \<and> \<not> (1.80 \<le> draw b \<and> draw b \<le> 2.20)
        \<and> \<not> (1.80 \<le> away b \<and> away b \<le> 2.20)"
  then have "collect_picks (items b) = []"
    by (simp add: picks_empty_iff in_band_def)
  with h show "analyze_match m t = Inr None"
    by (simp add: analyze_match_cases)
next
  show "in_band 2.20" by (simp add: in_band_def)
  show "\<not> in_band 2.21" by (simp add: in_band_def)
qed

theorem band_invariant_witness:
  "analyze_match (priced_at 2.20 3.40 3.60) 2 = Inr (Some
      \<lparr>a_match = ''Arsenal vs Chelsea'', a_commence_time = ''Unknown'',
       a_odds = \<lparr>home = 2.20, draw = 3.40, away = 3.60\<rparr>,
       recommendation = \<lparr>pick = ''HOME'', odds = 2.20, confidence = 55\<rparr>\<rparr>)
   \<and> 1.80 \<le> odds \<lparr>pick = ''HOME'', odds = 2.20, confidence = 55\<rparr>
   \<and> odds \<lparr>pick = ''HOME'', odds = 2.20, confidence = 55\<rparr> \<le> 2.20
   \<and> fixture_best_odds (priced_at 2.21 3.40 3.60) = Inr \<lparr>home = 2.21, draw = 3.40, away = 3.60\<rparr>
   \<and> analyze_match (priced_at 2.21 3.40 3.60) 2 = Inr None"
proof -
  have a: "analyze_match (priced_at 2.20 3.40 3.60) 2 = Inr (Some
      \<lparr>a_match = ''Arsenal vs Chelsea'', a_commence_time = ''Unknown'',
       a_odds = \<lparr>home = 2.20, draw = 3.40, away = 3.60\<rparr>,
       recommendation = \<lparr>pick = ''HOME'', odds = 2.20, confidence = 55\<rparr>\<rparr>)"
    by (simp add: analyze_priced_at items_def in_band_def make_pick_def raw_confidence_def upper_keys)
  have b: "fixture_best_odds (priced_at 2.21 3.40 3.60) = Inr \<lparr>home = 2.21, draw = 3.40, away = 3.60\<rparr>"
    by (simp add: best_odds_priced_at)
  from a b
    band_invariant [of "priced_at 2.20 3.40 3.60" 2]
    band_invariant [of "priced_at 2.21 3.40 3.60" 2 _ "\<lparr>home = 2.21, draw = 3.40, away = 3.60\<rparr>"]
  show ?thesis by simp
qed

text \<open>
  C2. Every candidate pick, and so the recommended one, has confidence 50, plus 10 when
  its price is below 2.05, plus 5 when it is the home outcome, capped at 85; hence the
  confidence lies between 50 and 85. A home price of 2.00 gives confidence 65.
\<close>

theorem confidence_formula:
  "(analyze_match m t = Inr (Some an) \<longrightarrow>
      recommendation an \<in> set (collect_picks (items (a_odds an)))
      \<and> (\<forall>p\<in>set (collect_picks (items (a_odds an))).
            confidence p = min (50 + (if odds p < 2.05 then 10 else 0)
                                   + (if pick p = ''HOME'' then 5 else 0)) 85
            \<and> 50 \<le> confidence p \<and> confidence p \<le> 85))
   \<and> (\<forall>(k, v)\<in>set (items b). in_band v \<longrightarrow>
         (\<exists>p\<in>set (collect_picks (items b)). pick p = upper k \<and> odds p = v
            \<and> confidence p = min (50 + (if v < 2.05 then 10 else 0)
                                      + (if k = ''home'' then 5 else 0)) 85))
   \<and> make_pick ''home'' 2.00 = \<lparr>pick = ''HOME'', odds = 2.00, confidence = 65\<rparr>"
proof (intro conjI impI ballI)
  fix kv assume kv: "kv \<in> set (items b)"
  show "case kv of (k, v) \<Rightarrow> in_band v \<longrightarrow>
         (\<exists>p\<in>set (collect_picks (items b)). pick p = upper k \<and> odds p = v
            \<and> confidence p = min (50 + (if v < 2.05 then 10 else 0)
                                      + (if k = ''home'' then 5 else 0)) 85)"
  proof (cases kv)
    case (Pair k v)
    have "in_band v \<Longrightarrow> make_pick k v \<in> set (collect_picks (items b))"
      using kv Pair by (auto simp: set_collect_picks)
    moreover have "pick (make_pick k v) = upper k \<and> odds (make_pick k v) = v
        \<and> confidence (make_pick k v) = min (50 + (if v < 2.05 then 10 else 0)
                                      + (if k = ''home'' then 5 else 0)) 85"
      by (simp add: make_pick_def raw_confidence_def)
    ultimately show ?thesis using Pair by auto
  qed
next
  assume a: "analyze_match m t = Inr (Some an)"
  from recommendation_candidate [OF a]
  show "recommendation an \<in> set (collect_picks (items (a_odds an)))" by simp
next
  fix p assume p: "p \<in> set (collect_picks (items (a_odds an)))"
  from pick_confidence [OF p]
  show "confidence p = min (50 + (if odds p < 2.05 then 10 else 0)
                                + (if pick p = ''HOME'' then 5 else 0)) 85" .
  from pick_confidence_values [OF p]
  show "50 \<le> confidence p" and "confidence p \<le> 85" by auto
next
  show "make_pick ''home'' 2.00 = \<lparr>pick = ''HOME'', odds = 2.00, confidence = 65\<rparr>"
    by (simp add: make_pick_def raw_confidence_def upper_keys)
qed

theorem confidence_formula_witness:
  "analyze_match (priced_at 2.00 3.40 3.60) 2 = Inr (Some
      \<lparr>a_match = ''Arsenal vs Chelsea'', a_commence_time = ''Unknown'',
       a_odds = \<lparr>home = 2.00, draw = 3.40, away = 3.60\<rparr>,
       recommendation = \<lparr>pick = ''HOME'', odds = 2.00, confidence = 65\<rparr>\<rparr>)
   \<and> collect_picks (items \<lparr>home = 2.00, draw = 3.40, away = 3.60\<rparr>)
       = [\<lparr>pick = ''HOME'', odds = 2.00, confidence = 65\<rparr>]
   \<and> (65::int) = min (50 + (if (2.00::real) < 2.05 then 10 else 0)
                        + (if ''HOME'' = ''HOME'' then 5 else 0)) 85
   \<and> (50::int) \<le> 65 \<and> (65::int) \<le> 85"
proof -
  have c: "collect_picks (items \<lparr>home = 2.00, draw = 3.40, away = 3.60\<rparr>)
       = [\<lparr>pick = ''HOME'', odds = 2.00, confidence = 65\<rparr>]"
    by (simp add: items_def in_band_def make_pick_def raw_confidence_def upper_keys)
  have a: "analyze_match (priced_at 2.00 3.40 3.60) 2 = Inr (Some
      \<lparr>a_match = ''Arsenal vs Chelsea'', a_commence_time = ''Unknown'',
       a_odds = \<lparr>home = 2.00, draw = 3.40, away = 3.60\<rparr>,
       recommendation = \<lparr>pick = ''HOME'', odds = 2.00, confidence = 65\<rparr>\<rparr>)"
    by (simp add: analyze_priced_at items_def in_band_def make_pick_def raw_confidence_def upper_keys)
  from a c confidence_formula [of "priced_at 2.00 3.40 3.60" 2]
  show ?thesis by simp
qed



text \<open>
  C4. The list that \<^verbatim>\<open>find_best_bets\<close> returns is in descending order of the
  recommendation's confidence, and the analyses of any one confidence stand in it in the
  order of their collection: league after league, and fixture after fixture within a
  league.
\<close>

theorem ranking_sorted_stable:
  assumes "find_best_bets fetch w leagues t = Inr res"
  shows "sorted_wrt (\<lambda>x y. confidence (recommendation x) \<ge> confidence (recommendation y)) res
    \<and> collect fetch t w [] leagues = Inr (fan_out fetch w leagues t)
    \<and> (\<forall>c. filter (\<lambda>x. confidence (recommendation x) = c) res
           = filter (\<lambda>x. confidence (recommendation x) = c) (fan_out fetch w leagues t))
    \<and> length res = length (fan_out fetch w leagues t)
    \<and> set res = set (fan_out fetch w leagues t)"
proof -
  from assms obtain all where c: "collect fetch t w [] leagues = Inr all"
    and res: "res = py_sort_reverse (\<lambda>x. confidence (recommendation x)) all"
    by (auto simp: find_best_bets_def split: sum.splits)
  from collect_fan_out [OF c] have all: "all = fan_out fetch w leagues t" by simp
  show ?thesis
    unfolding res
    using c all
    by (simp add: sorted_py_sort_reverse stable_py_sort_reverse length_py_sort_reverse
        set_py_sort_reverse)
qed

theorem ranking_sorted_stable_witness:
  "find_best_bets two_leagues () [''A'', ''B''] 2
      = Inr [home_pick 1.90 3.00 5.00, home_pick 1.95 3.00 5.00, home_pick 2.10 3.00 5.00]
   \<and> fan_out two_leagues () [''A'', ''B''] 2
      = [home_pick 2.10 3.00 5.00, home_pick 1.90 3.00 5.00, home_pick 1.95 3.00 5.00]
   \<and> map (\<lambda>x. confidence (recommendation x))
        [home_pick 1.90 3.00 5.00, home_pick 1.95 3.00 5.00, home_pick 2.10 3.00 5.00]
      = [65, 65, 55]
   \<and> sorted_wrt (\<lambda>x y. confidence (recommendation x) \<ge> confidence (recommendation y))
        [home_pick 1.90 3.00 5.00, home_pick 1.95 3.00 5.00, home_pick 2.10 3.00 5.00]
   \<and> filter (\<lambda>x. confidence (recommendation x) = 65)
        [home_pick 1.90 3.00 5.00, home_pick 1.95 3.00 5.00, home_pick 2.10 3.00 5.00]
      = filter (\<lambda>x. confidence (recommendation x) = 65) (fan_out two_leagues () [''A'', ''B''] 2)"
proof -
  have h: "find_best_bets two_leagues () [''A'', ''B''] 2
      = Inr [home_pick 1.90 3.00 5.00, home_pick 1.95 3.00 5.00, home_pick 2.10 3.00 5.00]"
    by (simp add: find_best_bets_def two_leagues_def analyze_into_def analyze_home_pick
        in_band_def py_sort_reverse_def confidence_home_pick)
  have c: "map (\<lambda>x. confidence (recommendation x))
        [home_pick 1.90 3.00 5.00, home_pick 1.95 3.00 5.00, home_pick 2.10 3.00 5.00]
      = [65, 65, 55]"
    by (simp add: confidence_home_pick)
  have f: "fan_out two_leagues () [''A'', ''B''] 2
      = [home_pick 2.10 3.00 5.00, home_pick 1.90 3.00 5.00, home_pick 1.95 3.00 5.00]"
    by (simp add: fan_out_def two_leagues_def analyses_of_Cons analyses_of_Nil
        analyze_home_pick in_band_def)
  from ranking_sorted_stable [OF h] h c f show ?thesis
    by (simp add: confidence_home_pick)
qed

text \<open>
  C5. Only the first five fixtures that the source gives for a league are analysed: the
  result is the same as with a source cut to five fixtures, and each league contributes
  at most five analyses to the list that is ranked.
\<close>

theorem five_per_league:
  "find_best_bets (first_five fetch) w leagues t = find_best_bets fetch w leagues t
   \<and> (find_best_bets fetch w leagues t = Inr res \<longrightarrow>
        set res = set (concat (map (\<lambda>ms. analyses_of t (take 5 ms)) (fetch_all fetch w leagues)))
        \<and> length res = length (concat (map (\<lambda>ms. analyses_of t (take 5 ms)) (fetch_all fetch w leagues)))
        \<and> length (fetch_all fetch w leagues) = length leagues
        \<and> length res \<le> 5 * length leagues)
   \<and> length (analyses_of t (take 5 ms)) \<le> 5"
proof (intro conjI impI)
  show "find_best_bets (first_five fetch) w leagues t = find_best_bets fetch w leagues t"
    by (simp add: find_best_bets_def collect_first_five)
  from length_analyses_of [of t "take 5 ms"] show "length (analyses_of t (take 5 ms)) \<le> 5"
    by simp
  show "length (fetch_all fetch w leagues) = length leagues" by (rule length_fetch_all)
next
  assume a: "find_best_bets fetch w leagues t = Inr res"
  then obtain all where c: "collect fetch t w [] leagues = Inr all"
    and res: "res = py_sort_reverse (\<lambda>x. confidence (recommendation x)) all"
    by (auto simp: find_best_bets_def split: sum.splits)
  from collect_fan_out [OF c] have all: "all = fan_out fetch w leagues t" by simp
  from res all
  show "set res = set (concat (map (\<lambda>ms. analyses_of t (take 5 ms)) (fetch_all fetch w leagues)))"
    by (simp add: set_py_sort_reverse fan_out_def)
  from res all
  show "length res = length (concat (map (\<lambda>ms. analyses_of t (take 5 ms)) (fetch_all fetch w leagues)))"
    by (simp add: length_py_sort_reverse fan_out_def)
  from res all length_fan_out [of fetch w leagues t]
  show "length res \<le> 5 * length leagues"
    by (simp add: length_py_sort_reverse)
qed

theorem five_per_league_witness:
  "find_best_bets eight_fixtures () [''soccer_epl''] 2
      = Inr [home_pick 1.90 3.00 5.00, home_pick 1.91 3.00 5.00, home_pick 1.92 3.00 5.00,
             home_pick 1.93 3.00 5.00, home_pick 1.94 3.00 5.00]
   \<and> length (fst (eight_fixtures () ''soccer_epl'')) = 8
   \<and> analyze_match (fst (eight_fixtures () ''soccer_epl'') ! 5) 2 = Inl TypeError
   \<and> length [home_pick 1.90 3.00 5.00, home_pick 1.91 3.00 5.00, home_pick 1.92 3.00 5.00,
             home_pick 1.93 3.00 5.00, home_pick 1.94 3.00 5.00] \<le> 5 * length [''soccer_epl'']
   \<and> find_best_bets (first_five eight_fixtures) () [''soccer_epl''] 2
      = find_best_bets eight_fixtures () [''soccer_epl''] 2"
proof -
  have h: "find_best_bets eight_fixtures () [''soccer_epl''] 2
      = Inr [home_pick 1.90 3.00 5.00, home_pick 1.91 3.00 5.00, home_pick 1.92 3.00 5.00,
             home_pick 1.93 3.00 5.00, home_pick 1.94 3.00 5.00]"
    by (simp add: find_best_bets_def eight_fixtures_def analyze_into_def analyze_home_pick
        in_band_def py_sort_reverse_def confidence_home_pick)
  have m: "analyze_match (fst (eight_fixtures () ''soccer_epl'') ! 5) 2 = Inl TypeError"
    by (simp add: eight_fixtures_def analyze_text_price)
  from five_per_league [of eight_fixtures "()" "[''soccer_epl'']" 2] h m
  show ?thesis by (simp add: eight_fixtures_def)
qed

text \<open>
  C6. For two target prices the function returns an analysis for both or for neither
  (and fails for both or for neither); both analyses carry the same best prices and the
  same candidate list, and differ at most in which candidate is recommended.
\<close>

theorem target_orders_only:
  "((\<exists>an. analyze_match m t1 = Inr (Some an)) \<longleftrightarrow> (\<exists>an. analyze_match m t2 = Inr (Some an)))
   \<and> (analyze_match m t1 = Inr None \<longleftrightarrow> analyze_match m t2 = Inr None)
   \<and> (analyze_match m t1 = Inl e \<longleftrightarrow> analyze_match m t2 = Inl e)
   \<and> (analyze_match m t1 = Inr (Some an1) \<and> analyze_match m t2 = Inr (Some an2) \<longrightarrow>
        a_odds an1 = a_odds an2
        \<and> collect_picks (items (a_odds an1)) = collect_picks (items (a_odds an2))
        \<and> recommendation an1 \<in> set (collect_picks (items (a_odds an2)))
        \<and> recommendation an2 \<in> set (collect_picks (items (a_odds an1)))
        \<and> an2 = an1\<lparr>recommendation := recommendation an2\<rparr>)"
proof (intro conjI impI)
  show "(\<exists>an. analyze_match m t1 = Inr (Some an)) \<longleftrightarrow> (\<exists>an. analyze_match m t2 = Inr (Some an))"
    using target_Some [of m t1 _ t2] target_Some [of m t2 _ t1] by blast
  show "analyze_match m t1 = Inr None \<longleftrightarrow> analyze_match m t2 = Inr None"
    using target_None [of m t1 t2] target_None [of m t2 t1] by blast
  show "analyze_match m t1 = Inl e \<longleftrightarrow> analyze_match m t2 = Inl e"
    using target_Inl [of m t1 e t2] target_Inl [of m t2 e t1] by blast
next
  assume both: "analyze_match m t1 = Inr (Some an1) \<and> analyze_match m t2 = Inr (Some an2)"
  then have a1: "analyze_match m t1 = Inr (Some an1)" and a2: "analyze_match m t2 = Inr (Some an2)"
    by simp_all
  from analyze_match_target [of m t2 t1] a1 a2
  have eq: "an2 = an1\<lparr>recommendation :=
      hd (py_sort (\<lambda>x. \<bar>odds x - t2\<bar>) (collect_picks (items (a_odds an1))))\<rparr>"
    by simp
  then show odds_eq: "a_odds an1 = a_odds an2" by simp
  then show "collect_picks (items (a_odds an1)) = collect_picks (items (a_odds an2))" by simp
  from recommendation_candidate [OF a1] odds_eq
  show "recommendation an1 \<in> set (collect_picks (items (a_odds an2)))" by simp
  from recommendation_candidate [OF a2] odds_eq
  show "recommendation an2 \<in> set (collect_picks (items (a_odds an1)))" by simp
  from eq show "an2 = an1\<lparr>recommendation := recommendation an2\<rparr>" by simp
qed

theorem target_orders_only_witness:
  "analyze_match (priced_at 1.90 3.00 2.10) 1.5 = Inr (Some
        \<lparr>a_match = ''Arsenal vs Chelsea'', a_commence_time = ''Unknown'',
         a_odds = \<lparr>home = 1.90, draw = 3.00, away = 2.10\<rparr>,
         recommendation = \<lparr>pick = ''HOME'', odds = 1.90, confidence = 65\<rparr>\<rparr>)
   \<and> analyze_match (priced_at 1.90 3.00 2.10) 3 = Inr (Some
        \<lparr>a_match = ''Arsenal vs Chelsea'', a_commence_time = ''Unknown'',
         a_odds = \<lparr>home = 1.90, draw = 3.00, away = 2.10\<rparr>,
         recommendation = \<lparr>pick = ''AWAY'', odds = 2.10, confidence = 50\<rparr>\<rparr>)
   \<and> \<lparr>pick = ''HOME'', odds = 1.90, confidence = 65\<rparr>
        \<in> set (collect_picks (items \<lparr>home = 1.90, draw = 3.00, away = 2.10\<rparr>))
   \<and> \<lparr>pick = ''AWAY'', odds = 2.10, confidence = 50\<rparr>
        \<in> set (collect_picks (items \<lparr>home = 1.90, draw = 3.00, away = 2.10\<rparr>))"
proof -
  have a1: "analyze_match (priced_at 1.90 3.00 2.10) 1.5 = Inr (Some
        \<lparr>a_match = ''Arsenal vs Chelsea'', a_commence_time = ''Unknown'',
         a_odds = \<lparr>home = 1.90, draw = 3.00, away = 2.10\<rparr>,
         recommendation = \<lparr>pick = ''HOME'', odds = 1.90, confidence = 65\<rparr>\<rparr>)"
    by (simp add: analyze_priced_at items_def in_band_def make_pick_def raw_confidence_def upper_keys)
  have a2: "analyze_match (priced_at 1.90 3.00 2.10) 3 = Inr (Some
        \<lparr>a_match = ''Arsenal vs Chelsea'', a_commence_time = ''Unknown'',
         a_odds = \<lparr>home = 1.90, draw = 3.00, away = 2.10\<rparr>,
         recommendation = \<lparr>pick = ''AWAY'', odds = 2.10, confidence = 50\<rparr>\<rparr>)"
    by (simp add: analyze_priced_at items_def in_band_def make_pick_def raw_confidence_def upper_keys)
  from target_orders_only [of "priced_at 1.90 3.00 2.10" "1.5" 3 _
      "\<lparr>a_match = ''Arsenal vs Chelsea'', a_commence_time = ''Unknown'',
         a_odds = \<lparr>home = 1.90, draw = 3.00, away = 2.10\<rparr>,
         recommendation = \<lparr>pick = ''HOME'', odds = 1.90, confidence = 65\<rparr>\<rparr>"
      "\<lparr>a_match = ''Arsenal vs Chelsea'', a_commence_time = ''Unknown'',
         a_odds = \<lparr>home = 1.90, draw = 3.00, away = 2.10\<rparr>,
         recommendation = \<lparr>pick = ''AWAY'', odds = 2.10, confidence = 50\<rparr>\<rparr>"] a1 a2
  show ?thesis by simp
qed

text \<open>
  C7. Appending one more bookmaker quote to the bookmaker list never lowers the home,
  draw or away value of the best-price record.
\<close>

theorem best_odds_monotone:
  assumes "best_odds_of h a (bks @ [q]) = Inr b'"
  shows "\<exists>b. best_odds_of h a bks = Inr b
           \<and> home b \<le> home b' \<and> draw b \<le> draw b' \<and> away b \<le> away b'"
proof -
  from assms obtain b where b: "best_odds_of h a bks = Inr b"
    and q: "scan_bookmaker h a b q = Inr b'"
    by (auto simp: best_odds_of_def for_each_append split: sum.splits)
  from scan_bookmaker_mono [OF q] have "le_odds b b'" .
  with b show ?thesis by (simp add: le_odds_def)
qed

theorem best_odds_monotone_witness:
  "best_odds_of ''Arsenal'' ''Chelsea''
      ([quote (Some (Num 2.00)) (Some (Num 3.40)) (Some (Num 3.60))]
        @ [quote (Some (Num 1.95)) (Some (Num 3.50)) None])
     = Inr \<lparr>home = 2.00, draw = 3.50, away = 3.60\<rparr>
   \<and> (\<exists>b. best_odds_of ''Arsenal'' ''Chelsea''
            [quote (Some (Num 2.00)) (Some (Num 3.40)) (Some (Num 3.60))] = Inr b
          \<and> home b \<le> 2.00 \<and> draw b \<le> 3.50 \<and> away b \<le> 3.60)"
proof -
  have h: "best_odds_of ''Arsenal'' ''Chelsea''
      ([quote (Some (Num 2.00)) (Some (Num 3.40)) (Some (Num 3.60))]
        @ [quote (Some (Num 1.95)) (Some (Num 3.50)) None])
     = Inr \<lparr>home = 2.00, draw = 3.50, away = 3.60\<rparr>"
    by (simp add: quote_def dict_get_def best_odds_of_def scan_bookmaker_def scan_market_def
        update_best_def py_max_def no_odds_def)
  from best_odds_monotone [OF h] h show ?thesis by simp
qed

text \<open>
  C8. A fixture whose bookmakers are missing or empty gives None at once, for every
  target price, and no exception.
\<close>

theorem empty_bookmakers_none:
  "dict_get [] (bookmakers m) = [] \<Longrightarrow> analyze_match m target_odds = Inr None"
  by (simp add: analyze_match_def)

theorem empty_bookmakers_none_witness:
  "dict_get [] (bookmakers \<lparr>home_team = Some ''Arsenal'', away_team = Some ''Chelsea'',
       commence_time = None, bookmakers = Some []\<rparr>) = []
   \<and> analyze_match \<lparr>home_team = Some ''Arsenal'', away_team = Some ''Chelsea'',
       commence_time = None, bookmakers = Some []\<rparr> 2 = Inr None"
  using empty_bookmakers_none
    [of "\<lparr>home_team = Some ''Arsenal'', away_team = Some ''Chelsea'',
          commence_time = None, bookmakers = Some []\<rparr>" 2]
  by (simp add: dict_get_def)




text \<open>
  C10. Every confidence that \<^verbatim>\<open>analyze_match\<close> produces is one of 50, 55, 60 and 65, each
  of which is reached, so the cap at 85 never changes a value.
\<close>

theorem clamp_never_applies:
  "(analyze_match m t = Inr (Some an) \<longrightarrow>
      confidence (recommendation an) \<le> 65
      \<and> confidence (recommendation an) \<in> {50, 55, 60, 65}
      \<and> (\<forall>p\<in>set (collect_picks (items (a_odds an))). confidence p \<in> {50, 55, 60, 65}))
   \<and> raw_confidence k v \<le> 65
   \<and> min (raw_confidence k v) 85 = raw_confidence k v
   \<and> (\<forall>c\<in>{50, 55, 60, 65}.
         \<exists>m' t' an'. analyze_match m' t' = Inr (Some an') \<and> confidence (recommendation an') = c)"
proof (intro conjI impI)
  assume a: "analyze_match m t = Inr (Some an)"
  from recommendation_candidate [OF a]
  have "recommendation an \<in> set (collect_picks (items (a_odds an)))" by simp
  then show v: "confidence (recommendation an) \<in> {50, 55, 60, 65}"
    by (rule pick_confidence_values)
  then show "confidence (recommendation an) \<le> 65" by auto
  show "\<forall>p\<in>set (collect_picks (items (a_odds an))). confidence p \<in> {50, 55, 60, 65}"
    using pick_confidence_values by blast
next
  from raw_confidence_values [of k v] show "raw_confidence k v \<le> 65" by auto
  from raw_confidence_values [of k v] show "min (raw_confidence k v) 85 = raw_confidence k v"
    by auto
next
  have "\<exists>m' t' an'. analyze_match m' t' = Inr (Some an') \<and> confidence (recommendation an') = 50"
    by (rule confidence_reached [OF analyze_away_high]) simp
  moreover
  have "\<exists>m' t' an'. analyze_match m' t' = Inr (Some an') \<and> confidence (recommendation an') = 55"
    by (rule confidence_reached [OF analyze_home_high]) simp
  moreover
  have "\<exists>m' t' an'. analyze_match m' t' = Inr (Some an') \<and> confidence (recommendation an') = 60"
    by (rule confidence_reached [OF analyze_draw_low]) simp
  moreover
  have "\<exists>m' t' an'. analyze_match m' t' = Inr (Some an') \<and> confidence (recommendation an') = 65"
    by (rule confidence_reached [OF analyze_home_low]) simp
  ultimately
  show "\<forall>c\<in>{50, 55, 60, 65}.
         \<exists>m' t' an'. analyze_match m' t' = Inr (Some an') \<and> confidence (recommendation an') = c"
    by simp
qed

theorem clamp_never_applies_witness:
  "analyze_match (priced_at 1.90 3.00 5.00) 2 = Inr (Some
      \<lparr>a_match = ''Arsenal vs Chelsea'', a_commence_time = ''Unknown'',
       a_odds = \<lparr>home = 1.90, draw = 3.00, away = 5.00\<rparr>,
       recommendation = \<lparr>pick = ''HOME'', odds = 1.90, confidence = 65\<rparr>\<rparr>)
   \<and> confidence \<lparr>pick = ''HOME'', odds = 1.90, confidence = 65\<rparr> \<le> 65
   \<and> raw_confidence ''home'' 1.90 = 65
   \<and> min (raw_confidence ''home'' 1.90) 85 = raw_confidence ''home'' 1.90"
  using analyze_home_low
    clamp_never_applies [of "priced_at 1.90 3.00 5.00" 2 _ "''home''" "1.90"]
  by (simp add: raw_confidence_def)

end
